theory Spec2Isabelle
  imports Complex_Main
begin

section \<open>Documents of the \<open>dwarfs\<close> collection\<close>

text \<open>
  The notebooks keep brown-dwarf records in a document store. A document carries its
  catalogue coordinates (\<open>coords.ra\<close>, \<open>coords.dec\<close>, in degrees) and two derived
  fields that the notebooks add: \<open>coords.loc\<close>, a GeoJSON point, and
  \<open>coords.healpix\<close>, a pixel identifier. Python floats are modelled as reals; the
  section on binary64 below models the rounding of the scale's arithmetic.
\<close>

datatype geojson = Point (coordinates: "real \<times> real")

record coords =
  ra :: real
  dec :: real
  loc :: "geojson option"
  healpix :: "int option"

record doc =
  source_id :: int
  spectral_type :: string
  coords :: coords

text \<open>
  The aggregation stage \<open>$geoNear\<close> returns each document with one more field, named by
  \<open>distanceField\<close>; \<open>added\<close> holds the fields added to a document, by name.
\<close>

record near_doc = doc +
  added :: "(string \<times> real) list"

datatype error = RuntimeError string | KeyError string | ValueError string

section \<open>Longitude and latitude\<close>

text \<open>
  \<^verbatim>\<open>lon, lat = ra-180., dec\<close> in both cone searches, and
  \<^verbatim>\<open>[ doc['coords']['ra']-180., doc['coords']['dec'] ]\<close> where the GeoJSON point of
  a document is built.
\<close>

definition lon_lat :: "real \<Rightarrow> real \<Rightarrow> real \<times> real" where
  "lon_lat ra' dec' = (ra' - 180, dec')"

text \<open>The loop that stores \<open>coords.loc\<close> in every document.\<close>

definition set_loc :: "doc list \<Rightarrow> doc list" where
  "set_loc ds =
     map (\<lambda>d. d\<lparr>coords := (coords d)\<lparr>loc :=
            Some (Point (lon_lat (ra (coords d)) (dec (coords d))))\<rparr>\<rparr>) ds"

section \<open>The WGS84 scale\<close>

text \<open>
  \<^verbatim>\<open>np.radians(x)\<close> is \<open>x * pi / 180\<close>. \<^verbatim>\<open>np.power(x, 2)\<close> is the square.
  \<^verbatim>\<open>np.power(x, 1.5)\<close> is the real power \<open>x powr 1.5\<close> for a base that is not negative;
  numpy yields \<open>nan\<close> for a negative base, and the division yields \<open>inf\<close> for a zero
  denominator, so the base of the power is named (\<open>wgs_base\<close>) and shown positive below.
\<close>

definition np_radians :: "real \<Rightarrow> real" where
  "np_radians x = x * pi / 180"

definition wgs_base :: "real \<Rightarrow> real \<Rightarrow> real" where
  "wgs_base e lat = 1 - e\<^sup>2 * (sin (np_radians lat))\<^sup>2"

definition wgs_scale :: "real \<Rightarrow> real" where
  "wgs_scale lat =
     (let a = (6378137.000000000000 :: real);
          b = (6356752.314140000000 :: real);
          e = (0.081819190842600 :: real);
          angle = np_radians 1.0;
          rm = a * (1 - e\<^sup>2) / (wgs_base e lat) powr 1.5;
          arc = rm * angle
      in arc)"

section \<open>The document store\<close>

text \<open>
  Modelled from the spec: the document store is a third-party service, of which the
  notebooks only hold a handle. Section 6 of the specification gives the primitives it
  exposes: a near query returning the documents within a maximal linear distance of a
  point, nearest first; the same with the distance attached to each document; and a
  query by membership of a field in a set of values. A collection is modelled as its
  documents and the metric of its spherical index, which stays a parameter: the
  repository does not define it.
\<close>

record collection =
  documents :: "doc list"
  metric :: "geojson \<Rightarrow> geojson \<Rightarrow> real"

record nearSphere =
  geometry :: geojson
  maxDistance :: real

record geoNear =
  near :: geojson
  spherical :: bool
  maxDistance_opt :: "real option"
  query :: "doc \<Rightarrow> bool"
  distanceField :: string

text \<open>Documents with no \<open>coords.loc\<close> are not in the spherical index.\<close>

definition located :: "collection \<Rightarrow> geojson \<Rightarrow> (doc \<times> real) list" where
  "located c p =
     map (\<lambda>d. (d, metric c p (the (loc (coords d)))))
         (filter (\<lambda>d. loc (coords d) \<noteq> None) (documents c))"

definition find_nearSphere :: "collection \<Rightarrow> nearSphere \<Rightarrow> doc list" where
  "find_nearSphere c q =
     map fst (sort_key snd (filter (\<lambda>(d, m). m \<le> maxDistance q) (located c (geometry q))))"

definition annotate :: "string \<Rightarrow> doc \<times> real \<Rightarrow> near_doc" where
  "annotate f dm = doc.extend (fst dm) \<lparr>added = [(f, snd dm)]\<rparr>"

definition aggregate_geoNear :: "collection \<Rightarrow> geoNear \<Rightarrow> near_doc list" where
  "aggregate_geoNear c g =
     map (annotate (distanceField g))
       (sort_key snd
         (filter (\<lambda>(d, m). query g d \<and> (case maxDistance_opt g of None \<Rightarrow> True | Some r \<Rightarrow> m \<le> r))
                 (located c (near g))))"


section \<open>Cone searches on the spherical index\<close>

text \<open>
  \<^verbatim>\<open>cone_search(ra, dec, radius, collection=dwarfs, field='coords.loc')\<close>: the radius in
  degrees is scaled to metres at the declination of the centre. The argument \<open>field\<close> is
  not used by the body, which names \<open>coords.loc\<close> itself.
\<close>

definition cone_search :: "real \<Rightarrow> real \<Rightarrow> real \<Rightarrow> collection \<Rightarrow> string \<Rightarrow> doc list" where
  "cone_search ra' dec' radius collection' field =
     (let scaling = wgs_scale dec';
          meter_radius = radius * scaling;
          (lon, lat) = lon_lat ra' dec'
      in find_nearSphere collection'
           \<lparr>geometry = Point (lon, lat), maxDistance = meter_radius\<rparr>)"

text \<open>
  \<^verbatim>\<open>cone_search_advanced(ra, dec, radius, query={}, collection=dwarfs,
  field='coords.loc', distance_field='distance')\<close>. The body aggregates over the global
  \<open>dwarfs\<close>, here the first argument, and uses neither \<open>collection\<close> nor \<open>field\<close>.
\<close>

definition cone_search_advanced ::
  "collection \<Rightarrow> real \<Rightarrow> real \<Rightarrow> real \<Rightarrow> (doc \<Rightarrow> bool) \<Rightarrow> collection \<Rightarrow> string \<Rightarrow> string
     \<Rightarrow> near_doc list" where
  "cone_search_advanced dwarfs ra' dec' radius query' collection' field distance_field =
     (let scaling = wgs_scale dec';
          meter_radius = radius * scaling;
          (lon, lat) = lon_lat ra' dec'
      in aggregate_geoNear dwarfs
           \<lparr>near = Point (lon, lat), spherical = True, maxDistance_opt = Some meter_radius,
            query = query', distanceField = distance_field\<rparr>)"

text \<open>
  Rounding to a number of decimals, as \<^verbatim>\<open>round(x, 2)\<close> does: the nearest multiple of
  one hundredth, and the even one of the two when \<open>x\<close> lies half way between them.
\<close>

definition round_half_even :: "real \<Rightarrow> int" where
  "round_half_even y =
     (let f = \<lfloor>y\<rfloor>; d = y - of_int f
      in if d < 1 / 2 then f else if 1 / 2 < d then f + 1 else if even f then f else f + 1)"

definition py_round :: "real \<Rightarrow> nat \<Rightarrow> real" where
  "py_round x ndigits = of_int (round_half_even (x * 10 ^ ndigits)) / 10 ^ ndigits"

text \<open>
  The loop over the cursor of \<open>cone_search_advanced\<close> prints for every document
  \<^verbatim>\<open>round(doc['distance']/wgs_scale(doc['coords']['dec']), 2)\<close>, the distance converted
  back to degrees. Reading a missing key raises \<open>KeyError\<close>.
\<close>

definition getitem :: "near_doc \<Rightarrow> string \<Rightarrow> error + real" where
  "getitem d k = (case map_of (added d) k of None \<Rightarrow> Inl (KeyError k) | Some v \<Rightarrow> Inr v)"

definition distance_degrees :: "near_doc \<Rightarrow> error + real" where
  "distance_degrees d =
     (case getitem d ''distance'' of
        Inl err \<Rightarrow> Inl err
      | Inr m \<Rightarrow> Inr (py_round (m / wgs_scale (dec (coords d))) 2))"

section \<open>Cone search on the pixel index\<close>






section \<open>The WGS84 scale in binary64\<close>

text \<open>
  The notebook computes in binary64. \<open>fl\<close> rounds a real to the nearest number with a
  significand of 53 bits, the even one on a tie; the range of the exponent is not
  limited, which no value below comes near. \<open>wgs_scale64\<close> is \<open>wgs_scale\<close> with the
  result of every operation rounded, the library functions (sine, power) taken as
  correctly rounded; \<^verbatim>\<open>np.radians\<close> multiplies by the constant \<open>pi / 180\<close> as
  computed in binary64.
\<close>

definition fl :: "real \<Rightarrow> real" where
  "fl x =
     (if x = 0 then 0
      else (let e = \<lfloor>log 2 \<bar>x\<bar>\<rfloor>
            in of_int (round_half_even (x * 2 powr (52 - of_int e))) * 2 powr (of_int e - 52)))"

definition np_radians64 :: "real \<Rightarrow> real" where
  "np_radians64 x = fl (x * fl (fl pi / 180))"

definition wgs_base64 :: "real \<Rightarrow> real \<Rightarrow> real" where
  "wgs_base64 e lat = fl (1 - fl (fl (e\<^sup>2) * fl ((fl (sin (np_radians64 lat)))\<^sup>2)))"

definition wgs_scale64 :: "real \<Rightarrow> real" where
  "wgs_scale64 lat =
     (let a = fl 6378137.000000000000;
          b = fl 6356752.314140000000;
          e = fl 0.081819190842600;
          angle = np_radians64 1.0;
          rm = fl (fl (a * fl (1 - fl (e\<^sup>2))) / fl (wgs_base64 e lat powr 1.5));
          arc = fl (rm * angle)
      in arc)"

section \<open>Example data\<close>

text \<open>
  A collection whose spherical index measures great-circle length on a sphere of the
  radius of the Earth, in metres, holding one document at the north pole of the sky.
\<close>

definition sphere_metric :: "geojson \<Rightarrow> geojson \<Rightarrow> real" where
  "sphere_metric p q =
     (case (p, q) of (Point (l1, b1), Point (l2, b2)) \<Rightarrow>
        6378137 * arccos (sin (np_radians b1) * sin (np_radians b2)
                        + cos (np_radians b1) * cos (np_radians b2) * cos (np_radians (l1 - l2))))"

definition polar_doc :: doc where
  "polar_doc = \<lparr>source_id = 1, spectral_type = ''M8.0'',
                coords = \<lparr>ra = 180, dec = 90, loc = None, healpix = None\<rparr>\<rparr>"

definition polar_dwarfs :: collection where
  "polar_dwarfs = \<lparr>documents = set_loc [polar_doc], metric = sphere_metric\<rparr>"

text \<open>The default \<^verbatim>\<open>query={}\<close> matches every document.\<close>

definition empty_query :: "doc \<Rightarrow> bool" where
  "empty_query d = True"

text \<open>The polar document as the aggregation returns it, a quarter of a great circle away.\<close>

definition polar_hit :: near_doc where
  "polar_hit = \<lparr>source_id = 1, spectral_type = ''M8.0'',
                coords = \<lparr>ra = 180, dec = 90, loc = Some (Point (0, 90)), healpix = None\<rparr>,
                added = [(''distance'', 6378137 * (pi / 2))]\<rparr>"





section \<open>Bounds on \<open>pi\<close>\<close>

text \<open>
  The values of the scale at the equator and at the pole need \<open>pi\<close> to seven
  digits. Machin's formula gives them from partial sums of the series of the arctangent,
  which alternates with terms that decrease to zero.
\<close>

lemma arctan_series_lower:
  assumes "0 \<le> x" "x \<le> 1"
  shows "(\<Sum>k<2 * n. (- 1) ^ k * (1 / real (k * 2 + 1) * x ^ (k * 2 + 1))) \<le> arctan x"
proof -
  let ?a = "\<lambda>k. 1 / real (k * 2 + 1) * x ^ (k * 2 + 1)"
  have ax: "\<bar>x\<bar> \<le> 1" using assms by simp
  have z: "?a \<longlonglongrightarrow> 0" by (rule zeroseq_arctan_series[OF ax])
  have nn: "0 \<le> ?a k" for k using assms by simp
  have dec: "?a (Suc k) \<le> ?a k" for k
  proof -
    have "x ^ (Suc k * 2 + 1) \<le> x ^ (k * 2 + 1)"
      using assms by (intro power_decreasing) auto
    moreover have "1 / real (Suc k * 2 + 1) \<le> 1 / real (k * 2 + 1)"
      by (simp add: field_simps)
    ultimately show ?thesis
      using assms by (intro mult_mono) auto
  qed
  have "(\<Sum>k<2 * n. (- 1) ^ k * ?a k) \<le> (\<Sum>k. (- 1) ^ k * ?a k)"
    using summable_Leibniz'(2)[of ?a, OF z nn dec, of n] by simp
  then show ?thesis using arctan_series[OF ax] by simp
qed

lemma arctan_series_upper:
  assumes "0 \<le> x" "x \<le> 1"
  shows "arctan x \<le> (\<Sum>k<2 * n + 1. (- 1) ^ k * (1 / real (k * 2 + 1) * x ^ (k * 2 + 1)))"
proof -
  let ?a = "\<lambda>k. 1 / real (k * 2 + 1) * x ^ (k * 2 + 1)"
  have ax: "\<bar>x\<bar> \<le> 1" using assms by simp
  have z: "?a \<longlonglongrightarrow> 0" by (rule zeroseq_arctan_series[OF ax])
  have nn: "0 \<le> ?a k" for k using assms by simp
  have dec: "?a (Suc k) \<le> ?a k" for k
  proof -
    have "x ^ (Suc k * 2 + 1) \<le> x ^ (k * 2 + 1)"
      using assms by (intro power_decreasing) auto
    moreover have "1 / real (Suc k * 2 + 1) \<le> 1 / real (k * 2 + 1)"
      by (simp add: field_simps)
    ultimately show ?thesis
      using assms by (intro mult_mono) auto
  qed
  have "(\<Sum>k. (- 1) ^ k * ?a k) \<le> (\<Sum>k<2 * n + 1. (- 1) ^ k * ?a k)"
    using summable_Leibniz'(4)[of ?a, OF z nn dec, of n] by simp
  then show ?thesis using arctan_series[OF ax] by simp
qed

lemma pi_lower: "3.1415926 \<le> pi"
proof -
  have "pi = 16 * arctan (1 / 5) - 4 * arctan (1 / 239)" using machin by simp
  then show ?thesis
    using arctan_series_lower[of "1/5" 3] arctan_series_upper[of "1/239" 1]
    by (simp add: eval_nat_numeral)
qed

lemma pi_upper: "pi \<le> 3.1415927"
proof -
  have "pi = 16 * arctan (1 / 5) - 4 * arctan (1 / 239)" using machin by simp
  then show ?thesis
    using arctan_series_upper[of "1/5" 3] arctan_series_lower[of "1/239" 1]
    by (simp add: eval_nat_numeral)
qed

section \<open>Properties of the WGS84 scale\<close>

lemma wgs_scale_closed:
  "wgs_scale lat =
     6378137 * (1 - 0.0818191908426\<^sup>2)
       / (1 - 0.0818191908426\<^sup>2 * (sin (lat * pi / 180))\<^sup>2) powr 1.5 * (pi / 180)"
  by (simp add: wgs_scale_def wgs_base_def np_radians_def Let_def)

lemma wgs_scale_base:
  "wgs_scale lat =
     6378137 * (1 - 0.0818191908426\<^sup>2) / wgs_base 0.0818191908426 lat powr 1.5 * (pi / 180)"
  by (simp add: wgs_scale_def np_radians_def Let_def)

lemma ecc_sq_less_one: "(0::real) < 1 - 0.0818191908426\<^sup>2"
  by (simp add: power2_eq_square)

lemma wgs_base_lower: "1 - 0.0818191908426\<^sup>2 \<le> wgs_base 0.0818191908426 lat"
proof -
  have "(sin (np_radians lat))\<^sup>2 \<le> 1"
    using abs_sin_le_one[of "np_radians lat"] by (simp add: abs_square_le_1)
  then have "0.0818191908426\<^sup>2 * (sin (np_radians lat))\<^sup>2 \<le> (0.0818191908426\<^sup>2 * 1 :: real)"
    by (intro mult_left_mono) simp_all
  then show ?thesis by (simp add: wgs_base_def)
qed

lemma wgs_base_pos: "0 < wgs_base 0.0818191908426 lat"
  using wgs_base_lower[of lat] ecc_sq_less_one by linarith

lemma wgs_scale_pos: "0 < wgs_scale lat"
proof -
  have D: "0 < wgs_base 0.0818191908426 lat powr 1.5"
    using wgs_base_pos[of lat] by simp
  have X: "(0::real) < 6378137 * (1 - 0.0818191908426\<^sup>2)"
    using ecc_sq_less_one by simp
  have "0 < 6378137 * (1 - 0.0818191908426\<^sup>2) / wgs_base 0.0818191908426 lat powr 1.5"
    using X D by (rule divide_pos_pos)
  then have "0 < 6378137 * (1 - 0.0818191908426\<^sup>2) / wgs_base 0.0818191908426 lat powr 1.5
                 * (pi / 180)"
    by (rule mult_pos_pos) simp
  then show ?thesis by (simp only: wgs_scale_base)
qed

lemma wgs_base_even: "wgs_base e (- lat) = wgs_base e lat"
  by (simp add: wgs_base_def np_radians_def)

lemma wgs_scale_even: "wgs_scale (- lat) = wgs_scale lat"
  by (simp only: wgs_scale_base wgs_base_even)

lemma wgs_base_strict_antimono:
  assumes "0 \<le> x" "x < y" "y \<le> 90"
  shows "wgs_base 0.0818191908426 y < wgs_base 0.0818191908426 x"
proof -
  have rx: "0 \<le> np_radians x" and rxy: "np_radians x < np_radians y"
    and ry: "np_radians y \<le> pi / 2"
    using assms by (simp_all add: np_radians_def)
  have s: "sin (np_radians x) < sin (np_radians y)"
    using rx rxy ry by (intro sin_monotone_2pi) linarith+
  have s0: "0 \<le> sin (np_radians x)"
    using rx rxy ry by (intro sin_ge_zero) (linarith, use pi_gt_zero in linarith)
  have "(sin (np_radians x))\<^sup>2 < (sin (np_radians y))\<^sup>2"
    using s s0 by (intro power_strict_mono) simp_all
  then have "0.0818191908426\<^sup>2 * (sin (np_radians x))\<^sup>2
             < (0.0818191908426\<^sup>2 * (sin (np_radians y))\<^sup>2 :: real)"
    by (intro mult_strict_left_mono) simp_all
  then show ?thesis by (simp add: wgs_base_def)
qed

lemma wgs_scale_strict_mono:
  assumes "0 \<le> x" "x < y" "y \<le> 90"
  shows "wgs_scale x < wgs_scale y"
proof -
  let ?X = "6378137 * (1 - 0.0818191908426\<^sup>2) :: real"
  let ?Dx = "wgs_base 0.0818191908426 x powr 1.5"
  let ?Dy = "wgs_base 0.0818191908426 y powr 1.5"
  have X: "0 < ?X" using ecc_sq_less_one by simp
  have Dy: "0 < ?Dy" using wgs_base_pos[of y] by simp
  have "?Dy < ?Dx"
    using wgs_base_strict_antimono[OF assms] wgs_base_pos[of y]
    by (intro powr_less_mono2) simp_all
  moreover have "0 < ?Dx * ?Dy"
    using wgs_base_pos[of x] Dy by (intro mult_pos_pos) simp_all
  ultimately have "?X / ?Dx < ?X / ?Dy"
    using X by (intro divide_strict_left_mono)
  then have "?X / ?Dx * (pi / 180) < ?X / ?Dy * (pi / 180)"
    by (intro mult_strict_right_mono) simp_all
  then show ?thesis by (simp only: wgs_scale_base)
qed

lemma powr_three_halves: "0 \<le> x \<Longrightarrow> x powr 1.5 = x * sqrt x"
proof -
  assume x: "0 \<le> x"
  have "x powr 1.5 = x powr (1 + 1 / 2)" by simp
  also have "\<dots> = x powr 1 * x powr (1 / 2)" by (rule powr_add)
  also have "\<dots> = x * sqrt x" using x by (simp add: powr_half_sqrt)
  finally show ?thesis .
qed

lemma wgs_scale_0: "wgs_scale 0 = 6378137 * (1 - 0.0818191908426\<^sup>2) * (pi / 180)"
  by (simp add: wgs_scale_base wgs_base_def np_radians_def)

lemma wgs_scale_0_bounds: "110574.2 < wgs_scale 0 \<and> wgs_scale 0 < 110574.3"
proof -
  have "110574.2 < 6378137 * (1 - 0.0818191908426\<^sup>2) * (3.1415926 / 180 :: real)"
    by (simp add: power2_eq_square)
  also have "\<dots> \<le> 6378137 * (1 - 0.0818191908426\<^sup>2) * (pi / 180)"
    using pi_lower ecc_sq_less_one by (intro mult_left_mono) simp_all
  finally have lo: "110574.2 < wgs_scale 0" by (simp only: wgs_scale_0)
  have "6378137 * (1 - 0.0818191908426\<^sup>2) * (pi / 180)
        \<le> 6378137 * (1 - 0.0818191908426\<^sup>2) * (3.1415927 / 180 :: real)"
    using pi_upper ecc_sq_less_one by (intro mult_left_mono) simp_all
  also have "\<dots> < 110574.3" by (simp add: power2_eq_square)
  finally have hi: "wgs_scale 0 < 110574.3" by (simp only: wgs_scale_0)
  show ?thesis using lo hi by simp
qed

lemma sqrt_base_bounds:
  "0.99664718 < sqrt (1 - 0.0818191908426\<^sup>2) \<and> sqrt (1 - 0.0818191908426\<^sup>2) < 0.99664719"
proof -
  have "sqrt (0.99664718\<^sup>2) < sqrt (1 - 0.0818191908426\<^sup>2)"
    by (subst real_sqrt_less_iff) (simp add: power2_eq_square)
  moreover have "sqrt (1 - 0.0818191908426\<^sup>2) < sqrt (0.99664719\<^sup>2)"
    by (subst real_sqrt_less_iff) (simp add: power2_eq_square)
  ultimately show ?thesis by simp
qed

lemma quotient_three_halves:
  fixes a q :: real
  assumes "0 < q"
  shows "a * q / (q powr 1.5) = a / sqrt q"
proof -
  have "a * q / (q powr 1.5) = a * q / (q * sqrt q)"
    using assms by (subst powr_three_halves) simp_all
  also have "\<dots> = a / sqrt q"
    using assms by simp
  finally show ?thesis .
qed

lemma scaled_quotient_mono:
  fixes a c s u :: real
  assumes "0 < s" "s \<le> u" "0 \<le> a" "0 \<le> c"
  shows "a / u * c \<le> a / s * c"
proof -
  have "a / u \<le> a / s"
    using assms by (intro divide_left_mono mult_pos_pos) simp_all
  then show ?thesis using assms by (intro mult_right_mono) simp_all
qed

lemma wgs_scale_90: "wgs_scale 90 = 6378137 / sqrt (1 - 0.0818191908426\<^sup>2) * (pi / 180)"
proof -
  have b: "wgs_base 0.0818191908426 90 = 1 - 0.0818191908426\<^sup>2"
    by (simp add: wgs_base_def np_radians_def)
  show ?thesis
    by (simp only: wgs_scale_base b quotient_three_halves[OF ecc_sq_less_one])
qed

lemma wgs_scale_90_bounds: "111693.9 < wgs_scale 90 \<and> wgs_scale 90 < 111694"
proof -
  define s :: real where "s = sqrt (1 - 0.0818191908426\<^sup>2)"
  have s: "0.99664718 < s" "s < 0.99664719"
    using sqrt_base_bounds by (simp_all only: s_def)
  have s0: "0 < s" using s(1) by simp
  have eq: "wgs_scale 90 = 6378137 / s * (pi / 180)"
    by (simp only: wgs_scale_90 s_def)
  have q0: "0 \<le> 6378137 / s" using s0 by simp
  have "111693.9 < 6378137 / 0.99664719 * (3.1415926 / 180 :: real)" by simp
  also have "\<dots> \<le> 6378137 / s * (3.1415926 / 180)"
    using s0 s(2) by (intro scaled_quotient_mono) simp_all
  also have "\<dots> \<le> 6378137 / s * (pi / 180)"
    using q0 pi_lower by (intro mult_left_mono) simp_all
  finally have lo: "111693.9 < wgs_scale 90" by (simp only: eq)
  have "6378137 / s * (pi / 180) \<le> 6378137 / s * (3.1415927 / 180)"
    using q0 pi_upper by (intro mult_left_mono) simp_all
  also have "\<dots> \<le> 6378137 / 0.99664718 * (3.1415927 / 180)"
    using s(1) by (intro scaled_quotient_mono) simp_all
  also have "\<dots> < (111694 :: real)" by simp
  finally have hi: "wgs_scale 90 < 111694" by (simp only: eq)
  show ?thesis using lo hi by simp
qed

section \<open>Properties of rounding\<close>

lemma rhe_lower: "of_int n \<le> y \<Longrightarrow> n \<le> round_half_even y"
proof -
  assume "of_int n \<le> y"
  then have "n \<le> \<lfloor>y\<rfloor>" by (simp add: le_floor_iff)
  then show ?thesis by (auto simp: round_half_even_def Let_def)
qed

lemma rhe_upper: "y \<le> of_int n \<Longrightarrow> round_half_even y \<le> n"
proof -
  assume y: "y \<le> of_int n"
  show ?thesis
  proof (cases "y = of_int n")
    case True
    then show ?thesis by (simp add: round_half_even_def)
  next
    case False
    with y have "y < of_int n" by simp
    then have "\<lfloor>y\<rfloor> < n" by (simp add: floor_less_iff)
    then show ?thesis by (auto simp: round_half_even_def Let_def)
  qed
qed

lemma rhe_near:
  assumes "of_int n - 1 / 2 < y" "y < of_int n + 1 / 2"
  shows "round_half_even y = n"
proof (cases "of_int n \<le> y")
  case True
  then have "\<lfloor>y\<rfloor> = n" using assms by (intro floor_unique) linarith+
  then show ?thesis using assms by (simp add: round_half_even_def)
next
  case False
  then have "\<lfloor>y\<rfloor> = n - 1" using assms by (intro floor_unique) (simp, linarith)+
  then show ?thesis using assms by (simp add: round_half_even_def)
qed

lemma rhe_tie_even:
  assumes "y = of_int n - 1 / 2" "even n"
  shows "round_half_even y = n"
proof -
  have "\<lfloor>y\<rfloor> = n - 1" using assms by (intro floor_unique) simp_all
  then show ?thesis using assms by (simp add: round_half_even_def)
qed


section \<open>The scale in binary64 near the equator\<close>

lemma fl_zero: "fl 0 = 0"
  by (simp add: fl_def)

lemma floor_log_bounds:
  assumes "0 < x"
  shows "2 powr of_int \<lfloor>log 2 x\<rfloor> \<le> x" "x < 2 powr (of_int \<lfloor>log 2 x\<rfloor> + 1)"
proof -
  have "of_int \<lfloor>log 2 x\<rfloor> \<le> log 2 x" by simp
  then show "2 powr of_int \<lfloor>log 2 x\<rfloor> \<le> x"
    using assms by (simp add: powr_le_iff)
  have "log 2 x < of_int \<lfloor>log 2 x\<rfloor> + 1" by linarith
  then show "x < 2 powr (of_int \<lfloor>log 2 x\<rfloor> + 1)"
    using assms by (simp add: less_powr_iff)
qed

lemma fl_pos_bounds:
  assumes "0 < x" "x \<le> 2 powr of_int k"
  shows "0 < fl x \<and> fl x \<le> 2 powr of_int k"
proof -
  define e where "e = \<lfloor>log 2 x\<rfloor>"
  define m where "m = x * 2 powr (52 - of_int e)"
  have lo: "2 powr of_int e \<le> x" and hi: "x < 2 powr (of_int e + 1)"
    using floor_log_bounds[OF assms(1)] by (simp_all add: e_def)
  have flx: "fl x = of_int (round_half_even m) * 2 powr (of_int e - 52)"
    using assms(1) by (simp add: fl_def e_def m_def Let_def)
  have "2 powr of_int e * 2 powr (52 - of_int e) \<le> m"
    unfolding m_def using lo by (intro mult_right_mono) simp_all
  then have m_lo: "of_int (2 ^ 52) \<le> m"
    by (simp add: powr_add[symmetric])
  have "m < 2 powr (of_int e + 1) * 2 powr (52 - of_int e)"
    unfolding m_def using hi by (intro mult_strict_right_mono) simp_all
  then have m_hi: "m \<le> of_int (2 ^ 53)"
    by (simp add: powr_add[symmetric])
  have r_lo: "2 ^ 52 \<le> round_half_even m" using m_lo by (rule rhe_lower)
  have r_hi: "round_half_even m \<le> 2 ^ 53" using m_hi by (rule rhe_upper)
  have pos: "0 < fl x"
    unfolding flx using r_lo by (intro mult_pos_pos) simp_all
  have up: "fl x \<le> 2 powr of_int k"
  proof (cases "x = 2 powr of_int k")
    case True
    then have "log 2 x = of_int k" by simp
    then have ek: "e = k" by (simp add: e_def)
    have "m = 2 powr of_int k * 2 powr (52 - of_int k)" by (simp add: m_def True ek)
    also have "\<dots> = of_int (2 ^ 52)" by (simp add: powr_add[symmetric])
    finally have "round_half_even m = 2 ^ 52"
      by (simp add: round_half_even_def)
    then have "fl x = 2 powr 52 * 2 powr (of_int k - 52)" by (simp add: flx ek)
    also have "\<dots> = 2 powr (52 + (of_int k - 52))" by (rule powr_add[symmetric])
    also have "\<dots> = 2 powr of_int k" by simp
    finally show ?thesis by simp
  next
    case False
    with assms(2) have "x < 2 powr of_int k" by simp
    then have "log 2 x < of_int k" using assms(1) by (simp add: log_less_iff)
    then have "e < k" by (simp add: e_def floor_less_iff)
    then have ek: "of_int e + 1 \<le> (of_int k :: real)" by linarith
    have "fl x \<le> of_int (2 ^ 53) * 2 powr (of_int e - 52)"
      unfolding flx using r_hi by (intro mult_right_mono) simp_all
    also have "\<dots> = 2 powr 53 * 2 powr (of_int e - 52)" by simp
    also have "\<dots> = 2 powr (53 + (of_int e - 52))" by (rule powr_add[symmetric])
    also have "\<dots> = 2 powr (of_int e + 1)" by (simp add: add.commute)
    also have "\<dots> \<le> 2 powr of_int k" using ek by simp
    finally show ?thesis .
  qed
  show ?thesis using pos up by simp
qed

lemma fl_bounds:
  assumes "0 \<le> x" "x \<le> 2 powr of_int k"
  shows "0 \<le> fl x \<and> fl x \<le> 2 powr of_int k"
proof (cases "x = 0")
  case True
  then show ?thesis by (simp add: fl_zero)
next
  case False
  then have "0 < x" using assms(1) by simp
  then show ?thesis using fl_pos_bounds[OF _ assms(2)] by simp
qed

lemma fl_one_minus:
  assumes "0 \<le> t" "t \<le> 2 powr (- 54)"
  shows "fl (1 - t) = 1"
proof (cases "t = 0")
  case True
  have "round_half_even (2 ^ 52) = 2 ^ 52"
    using rhe_near[of "2 ^ 52" "2 ^ 52"] by simp
  then show ?thesis using True by (simp add: fl_def powr_minus_divide)
next
  case False
  then have t: "0 < t" using assms(1) by simp
  have t54: "t \<le> 1 / 2 ^ 54" using assms(2) by (simp add: powr_minus_divide)
  have x1: "1 / 2 \<le> 1 - t" using t54 by simp
  have x2: "1 - t < 1" using t by simp
  have "log 2 (1 - t) < 0" using x1 x2 by simp
  moreover have "- 1 \<le> log 2 (1 - t)"
    using x1 by (simp add: le_log_iff powr_minus_divide)
  ultimately have e: "\<lfloor>log 2 \<bar>1 - t\<bar>\<rfloor> = - 1"
    using x1 by (intro floor_unique) simp_all
  define m where "m = (1 - t) * 2 ^ 53"
  have m_lo: "of_int (2 ^ 53) - 1 / 2 \<le> m" using t54 by (simp add: m_def field_simps)
  have m_hi: "m < of_int (2 ^ 53)" using t by (simp add: m_def)
  have r: "round_half_even m = 2 ^ 53"
  proof (cases "m = of_int (2 ^ 53) - 1 / 2")
    case True
    then show ?thesis by (intro rhe_tie_even) simp_all
  next
    case False
    then show ?thesis using m_lo m_hi by (intro rhe_near) simp_all
  qed
  have "fl (1 - t) = of_int (round_half_even ((1 - t) * 2 powr 53)) * 2 powr (- 53)"
    using x1 e by (simp add: fl_def Let_def)
  also have "\<dots> = of_int (round_half_even m) * 2 powr (- 53)"
    by (simp add: m_def)
  also have "\<dots> = 1" by (simp add: r powr_minus_divide)
  finally show ?thesis .
qed

lemma fl_bounds_pow2:
  assumes "0 \<le> x" "x \<le> 1 / 2 ^ n"
  shows "0 \<le> fl x \<and> fl x \<le> 1 / 2 ^ n"
proof -
  have eq: "2 powr of_int (- int n) = (1 / 2 ^ n :: real)"
    by (simp add: powr_minus_divide powr_realpow)
  show ?thesis using fl_bounds[of x "- int n"] assms by (simp only: eq)
qed

lemma fl_one_minus_pow2:
  assumes "0 \<le> t" "t \<le> 1 / 2 ^ 54"
  shows "fl (1 - t) = 1"
  using assms by (intro fl_one_minus) (simp_all add: powr_minus_divide)

lemma fl_one: "fl 1 = 1"
  using fl_one_minus_pow2[of 0] by simp

lemma wgs_base64_zero: "wgs_base64 e 0 = 1"
  by (simp add: wgs_base64_def np_radians64_def fl_zero fl_one)

lemma np_radians64_tiny:
  "0 \<le> np_radians64 (1 / 2 ^ 20) \<and> np_radians64 (1 / 2 ^ 20) \<le> 1 / 2 ^ 25"
proof -
  have "pi \<le> 2 powr of_int 2" using pi_less_4 by simp
  then have p: "0 \<le> fl pi" "fl pi \<le> 4"
    using fl_bounds[of pi 2] by simp_all
  have "fl pi / 180 \<le> 1 / 2 ^ 5" using p(2) by simp
  moreover have "0 \<le> fl pi / 180" using p(1) by simp
  ultimately have d: "0 \<le> fl (fl pi / 180)" "fl (fl pi / 180) \<le> 1 / 2 ^ 5"
    using fl_bounds_pow2[of "fl pi / 180" 5] by simp_all
  have "1 / 2 ^ 20 * fl (fl pi / 180) \<le> 1 / 2 ^ 20 * (1 / 2 ^ 5)"
    using d(2) by (intro mult_left_mono) simp_all
  then have "1 / 2 ^ 20 * fl (fl pi / 180) \<le> 1 / 2 ^ 25" by simp
  moreover have "0 \<le> 1 / 2 ^ 20 * fl (fl pi / 180)" using d(1) by simp
  ultimately show ?thesis
    unfolding np_radians64_def by (rule fl_bounds_pow2[rotated])
qed

lemma square_le_pow2:
  fixes s :: real
  assumes "0 \<le> s" "s \<le> 1 / 2 ^ n"
  shows "s\<^sup>2 \<le> 1 / 2 ^ (2 * n)"
proof -
  have "s\<^sup>2 \<le> (1 / 2 ^ n)\<^sup>2" using assms by (intro power_mono) simp_all
  also have "\<dots> = 1 / 2 ^ (2 * n)" by (simp add: power_divide power_mult mult.commute power2_eq_square power_add[symmetric] mult_2)
  finally show ?thesis .
qed

lemma wgs_base64_tiny:
  assumes "0 \<le> e" "e \<le> 1 / 2 ^ 3"
  shows "wgs_base64 e (1 / 2 ^ 20) = 1"
proof -
  define r where "r = np_radians64 (1 / 2 ^ 20)"
  have r: "0 \<le> r" "r \<le> 1 / 2 ^ 25" using np_radians64_tiny by (simp_all add: r_def)
  have "r \<le> pi" using r(2) pi_ge_two by simp
  then have s0: "0 \<le> sin r" using r(1) by (intro sin_ge_zero)
  have "sin r \<le> r" using r(1) by (rule sin_x_le_x)
  then have s1: "sin r \<le> 1 / 2 ^ 25" using r(2) by simp
  define s where "s = fl (sin r)"
  have s: "0 \<le> s" "s \<le> 1 / 2 ^ 25"
    using fl_bounds_pow2[OF s0 s1] by (simp_all add: s_def)
  define q where "q = fl (s\<^sup>2)"
  have "s\<^sup>2 \<le> 1 / 2 ^ (2 * 25)" using s by (rule square_le_pow2)
  then have q: "0 \<le> q" "q \<le> 1 / 2 ^ 50"
    using fl_bounds_pow2[of "s\<^sup>2" 50] by (simp_all add: q_def)
  define E where "E = fl (e\<^sup>2)"
  have "e\<^sup>2 \<le> 1 / 2 ^ (2 * 3)" using assms by (rule square_le_pow2)
  then have E: "0 \<le> E" "E \<le> 1 / 2 ^ 6"
    using fl_bounds_pow2[of "e\<^sup>2" 6] by (simp_all add: E_def)
  have "E * q \<le> 1 / 2 ^ 6 * (1 / 2 ^ 50)"
    using E q by (intro mult_mono) simp_all
  then have Eq: "E * q \<le> 1 / 2 ^ 56" by simp
  have Eq0: "0 \<le> E * q" using E(1) q(1) by simp
  define t where "t = fl (E * q)"
  have t: "0 \<le> t" "t \<le> 1 / 2 ^ 56"
    using fl_bounds_pow2[OF Eq0 Eq] by (simp_all add: t_def)
  have "t \<le> 1 / 2 ^ 54" using t(2) by simp
  then have "fl (1 - t) = 1" using t(1) by (intro fl_one_minus_pow2)
  then show ?thesis
    by (simp add: wgs_base64_def t_def E_def q_def s_def r_def)
qed

lemma ecc64_bounds: "0 \<le> fl 0.081819190842600 \<and> fl 0.081819190842600 \<le> 1 / 2 ^ 3"
  by (rule fl_bounds_pow2) simp_all

lemma wgs_scale64_flat: "wgs_scale64 0 = wgs_scale64 (1 / 2 ^ 20)"
proof -
  have b: "wgs_base64 (fl 0.081819190842600) (1 / 2 ^ 20) = 1"
    using ecc64_bounds by (intro wgs_base64_tiny) simp_all
  show ?thesis
    by (simp only: wgs_scale64_def Let_def wgs_base64_zero b)
qed

lemma fl_powr2: "fl (2 powr of_int k) = 2 powr of_int k"
proof -
  have e: "\<lfloor>log 2 \<bar>2 powr of_int k :: real\<bar>\<rfloor> = k" by simp
  have "2 powr of_int k * 2 powr (52 - of_int k) = (2 powr (of_int k + (52 - of_int k)) :: real)"
    by (rule powr_add[symmetric])
  also have "\<dots> = of_int (2 ^ 52)" by simp
  finally have m: "2 powr of_int k * 2 powr (52 - of_int k) = (of_int (2 ^ 52) :: real)" .
  have r: "round_half_even (of_int (2 ^ 52)) = 2 ^ 52"
    by (intro rhe_near) simp_all
  have "fl (2 powr of_int k) = of_int (2 ^ 52) * 2 powr (of_int k - 52)"
    by (simp only: fl_def Let_def e m r) simp
  also have "\<dots> = 2 powr 52 * 2 powr (of_int k - 52)" by simp
  also have "\<dots> = 2 powr (52 + (of_int k - 52))" by (rule powr_add[symmetric])
  also have "\<dots> = 2 powr of_int k" by simp
  finally show ?thesis .
qed

lemma fl_pow2_exact: "fl (1 / 2 ^ 20) = 1 / 2 ^ 20"
proof -
  have "(1 / 2 ^ 20 :: real) = 2 powr of_int (- 20)" by (simp add: powr_minus_divide)
  then show ?thesis using fl_powr2[of "- 20"] by (simp only:)
qed

section \<open>Properties of the store and of the example data\<close>

lemma located_iff:
  "(d, m) \<in> set (located c p) \<longleftrightarrow>
     d \<in> set (documents c) \<and> (\<exists>q. loc (coords d) = Some q \<and> m = metric c p q)"
  by (auto simp: located_def image_iff)

lemma aggregate_geoNear_iff:
  "nd \<in> set (aggregate_geoNear c g) \<longleftrightarrow>
     (\<exists>d m. (d, m) \<in> set (located c (near g)) \<and> query g d
          \<and> (case maxDistance_opt g of None \<Rightarrow> True | Some r \<Rightarrow> m \<le> r)
          \<and> nd = annotate (distanceField g) (d, m))"
  by (auto simp: aggregate_geoNear_def image_iff)

lemma distance_degrees_annotate:
  "distance_degrees (annotate ''distance'' (d, m))
     = Inr (py_round (m / wgs_scale (dec (coords d))) 2)"
  by (simp add: distance_degrees_def getitem_def annotate_def doc.defs)

lemma truncate_annotate: "doc.truncate (annotate f (d, m)) = d"
  by (simp add: annotate_def doc.defs)

lemma sphere_metric_pole:
  "sphere_metric (Point (0, 0)) (Point (0, 90)) = 6378137 * (pi / 2)"
  by (simp add: sphere_metric_def np_radians_def)

lemma pole_within_radius: "6378137 * (pi / 2) \<le> 100 * wgs_scale 0"
proof -
  have "(6378137 / 2 :: real) \<le> 100 * (6378137 * (1 - 0.0818191908426\<^sup>2)) / 180"
    by (simp add: power2_eq_square)
  then have "6378137 / 2 * pi \<le> 100 * (6378137 * (1 - 0.0818191908426\<^sup>2)) / 180 * pi"
    by (intro mult_right_mono) simp_all
  then show ?thesis by (simp add: wgs_scale_0)
qed

lemma polar_located:
  "located polar_dwarfs (Point (0, 0)) =
     [(polar_doc\<lparr>coords := (coords polar_doc)\<lparr>loc := Some (Point (0, 90))\<rparr>\<rparr>, 6378137 * (pi / 2))]"
  by (simp add: located_def polar_dwarfs_def set_loc_def polar_doc_def lon_lat_def
      sphere_metric_pole)

lemma polar_search:
  "cone_search_advanced polar_dwarfs 180 0 100 empty_query polar_dwarfs ''coords.loc'' ''distance''
     = [polar_hit]"
  using pole_within_radius
  by (simp add: cone_search_advanced_def aggregate_geoNear_def lon_lat_def polar_located
      empty_query_def annotate_def polar_hit_def polar_doc_def doc.defs)

lemma polar_degrees:
  "distance_degrees polar_hit = Inr (py_round (6378137 * (pi / 2) / wgs_scale 90) 2)"
  by (simp add: distance_degrees_def getitem_def polar_hit_def)

lemma py_round_near:
  assumes "of_int n - 1 / 2 < x * 100" "x * 100 < of_int n + 1 / 2"
  shows "py_round x 2 = of_int n / 100"
  using rhe_near[OF assms] by (simp add: py_round_def)

lemma polar_quotient_record:
  "89.695 < 6378137 * (pi / 2) / wgs_scale 90 \<and> 6378137 * (pi / 2) / wgs_scale 90 < 89.705"
proof -
  have w: "111693.9 < wgs_scale 90" "wgs_scale 90 < 111694"
    using wgs_scale_90_bounds by simp_all
  have p: "0 < wgs_scale 90" by (rule wgs_scale_pos)
  have "89.695 * wgs_scale 90 < 89.695 * (111694 :: real)" using w(2) by simp
  also have "\<dots> < 6378137 * (3.1415926 / 2)" by simp
  also have "\<dots> \<le> 6378137 * (pi / 2)" using pi_lower by simp
  finally have lo: "89.695 < 6378137 * (pi / 2) / wgs_scale 90"
    using p by (simp add: pos_less_divide_eq)
  have "6378137 * (pi / 2) \<le> 6378137 * (3.1415927 / 2)" using pi_upper by simp
  also have "\<dots> < 89.705 * (111693.9 :: real)" by simp
  also have "\<dots> < 89.705 * wgs_scale 90" using w(1) by simp
  finally have hi: "6378137 * (pi / 2) / wgs_scale 90 < 89.705"
    using p by (simp add: pos_divide_less_eq)
  show ?thesis using lo hi by simp
qed

lemma polar_quotient_centre:
  "90.605 < 6378137 * (pi / 2) / wgs_scale 0 \<and> 6378137 * (pi / 2) / wgs_scale 0 < 90.615"
proof -
  have w: "110574.2 < wgs_scale 0" "wgs_scale 0 < 110574.3"
    using wgs_scale_0_bounds by simp_all
  have p: "0 < wgs_scale 0" by (rule wgs_scale_pos)
  have "90.605 * wgs_scale 0 < 90.605 * (110574.3 :: real)" using w(2) by simp
  also have "\<dots> < 6378137 * (3.1415926 / 2)" by simp
  also have "\<dots> \<le> 6378137 * (pi / 2)" using pi_lower by simp
  finally have lo: "90.605 < 6378137 * (pi / 2) / wgs_scale 0"
    using p by (simp add: pos_less_divide_eq)
  have "6378137 * (pi / 2) \<le> 6378137 * (3.1415927 / 2)" using pi_upper by simp
  also have "\<dots> < 90.615 * (110574.2 :: real)" by simp
  also have "\<dots> < 90.615 * wgs_scale 0" using w(1) by simp
  finally have hi: "6378137 * (pi / 2) / wgs_scale 0 < 90.615"
    using p by (simp add: pos_divide_less_eq)
  show ?thesis using lo hi by simp
qed

lemma polar_rounded_record: "py_round (6378137 * (pi / 2) / wgs_scale 90) 2 = 89.7"
proof -
  have "py_round (6378137 * (pi / 2) / wgs_scale 90) 2 = of_int 8970 / 100"
    using polar_quotient_record by (intro py_round_near) simp_all
  then show ?thesis by simp
qed

lemma polar_rounded_centre: "py_round (6378137 * (pi / 2) / wgs_scale 0) 2 = 90.61"
proof -
  have "py_round (6378137 * (pi / 2) / wgs_scale 0) 2 = of_int 9061 / 100"
    using polar_quotient_centre by (intro py_round_near) simp_all
  then show ?thesis by simp
qed

section \<open>The claims\<close>

text \<open>
  Claim C1, as the code has it: every document that \<open>cone_search_advanced\<close> returns
  is a document of the collection with a \<open>coords.loc\<close> that satisfies the query; its
  distance \<open>m\<close> is the store's distance from the centre of the search and is at most
  the radius scaled at the declination of the centre; and the degrees printed for it are
  \<open>m\<close> divided by \<open>wgs_scale\<close> at the declination of the document itself, rounded
  to two decimals.
\<close>

theorem cone_search_advanced_distance_at_record:
  assumes "nd \<in> set (cone_search_advanced dwarfs ra' dec' radius q coll field ''distance'')"
  shows "\<exists>d p m. d \<in> set (documents dwarfs) \<and> loc (coords d) = Some p \<and> q d
           \<and> doc.truncate nd = d
           \<and> m = metric dwarfs (Point (ra' - 180, dec')) p
           \<and> m \<le> radius * wgs_scale dec'
           \<and> distance_degrees nd = Inr (py_round (m / wgs_scale (dec (coords d))) 2)"
proof -
  from assms obtain d m where
    dm: "(d, m) \<in> set (located dwarfs (Point (ra' - 180, dec')))" and
    qd: "q d" and le: "m \<le> radius * wgs_scale dec'" and
    nd: "nd = annotate ''distance'' (d, m)"
    by (auto simp: cone_search_advanced_def lon_lat_def aggregate_geoNear_iff)
  from dm obtain p where
    d: "d \<in> set (documents dwarfs)" and p: "loc (coords d) = Some p" and
    m: "m = metric dwarfs (Point (ra' - 180, dec')) p"
    by (auto simp: located_iff)
  have deg: "distance_degrees nd = Inr (py_round (m / wgs_scale (dec (coords d))) 2)"
    by (simp only: nd distance_degrees_annotate)
  have tr: "doc.truncate nd = d" by (simp only: nd truncate_annotate)
  show ?thesis using d p qd tr m le deg by blast
qed

text \<open>
  The theorem at the polar collection, searched around right ascension 180 and
  declination 0 with a radius of 100 degrees.
\<close>

theorem cone_search_advanced_distance_at_record_witness:
  "polar_hit \<in> set (cone_search_advanced polar_dwarfs 180 0 100 empty_query polar_dwarfs
                      ''coords.loc'' ''distance'')
   \<and> (\<exists>d p m. d \<in> set (documents polar_dwarfs) \<and> loc (coords d) = Some p \<and> empty_query d
           \<and> doc.truncate polar_hit = d
           \<and> m = metric polar_dwarfs (Point (180 - 180, 0)) p
           \<and> m \<le> 100 * wgs_scale 0
           \<and> distance_degrees polar_hit = Inr (py_round (m / wgs_scale (dec (coords d))) 2))"
proof -
  have h: "polar_hit \<in> set (cone_search_advanced polar_dwarfs 180 0 100 empty_query polar_dwarfs
                      ''coords.loc'' ''distance'')"
    by (simp only: polar_search list.set insertI1)
  show ?thesis
    using h cone_search_advanced_distance_at_record[OF h] by blast
qed

text \<open>
  Claim C1 as stated fails there: the search returns the polar document, a quarter of a
  great circle from the centre, and the loop prints 89.7 degrees for it, the distance
  divided by the scale at declination 90. Dividing by the scale at the centre gives more
  than 90.6 degrees, 90.61 when rounded the same way.
\<close>

theorem cone_search_advanced_centre_scale_counterexample:
  "cone_search_advanced polar_dwarfs 180 0 100 empty_query polar_dwarfs ''coords.loc'' ''distance''
     = [polar_hit]
   \<and> distance_degrees polar_hit = Inr 89.7
   \<and> py_round (6378137 * (pi / 2) / wgs_scale 0) 2 = 90.61
   \<and> distance_degrees polar_hit \<noteq> Inr (py_round (6378137 * (pi / 2) / wgs_scale 0) 2)
   \<and> 90.605 < 6378137 * (pi / 2) / wgs_scale 0"
  using polar_search polar_degrees polar_rounded_record polar_rounded_centre
    polar_quotient_centre
  by simp

text \<open>
  Claim C2, as the code has it: for right ascension in [0, 360] and declination in
  [-90, 90] the longitude \<open>ra - 180\<close> lies in the closed interval [-180, 180] and the
  latitude in [-90, 90]; the longitude is below 180 exactly when the right ascension is
  below 360; right ascension 0 gives longitude -180 and right ascension 360 gives 180.
\<close>

theorem lon_lat_range:
  assumes "0 \<le> ra'" "ra' \<le> 360" "- 90 \<le> dec'" "dec' \<le> 90"
  shows "- 180 \<le> fst (lon_lat ra' dec') \<and> fst (lon_lat ra' dec') \<le> 180
         \<and> (fst (lon_lat ra' dec') < 180 \<longleftrightarrow> ra' < 360)
         \<and> - 90 \<le> snd (lon_lat ra' dec') \<and> snd (lon_lat ra' dec') \<le> 90
         \<and> fst (lon_lat 0 dec') = - 180 \<and> fst (lon_lat 360 dec') = 180"
  using assms by (simp add: lon_lat_def)

text \<open>
  The theorem at the centre of the notebook's search, right ascension 220 and
  declination 12.
\<close>

theorem lon_lat_range_witness:
  "(0::real) \<le> 220 \<and> (220::real) \<le> 360 \<and> - 90 \<le> (12::real) \<and> (12::real) \<le> 90
   \<and> lon_lat 220 12 = (40, 12)
   \<and> - 180 \<le> fst (lon_lat 220 12) \<and> fst (lon_lat 220 12) < 180
   \<and> fst (lon_lat 360 12) = 180"
proof -
  have h: "(0::real) \<le> 220" "(220::real) \<le> 360" "- 90 \<le> (12::real)" "(12::real) \<le> 90"
    by simp_all
  have "lon_lat 220 12 = (40, 12)" by (simp add: lon_lat_def)
  then show ?thesis using lon_lat_range[OF h] by simp
qed

text \<open>
  Claim C2 as stated fails at right ascension 360: the longitude is 180, outside the
  half-open interval, and differs from the longitude of right ascension 0.
\<close>

theorem lon_lat_seam_counterexample:
  "fst (lon_lat 360 0) = 180 \<and> \<not> fst (lon_lat 360 0) < 180
   \<and> fst (lon_lat 360 0) \<noteq> fst (lon_lat 0 0)"
  by (simp add: lon_lat_def)







text \<open>
  Claim C7, as the code has it: \<open>wgs_scale\<close> is the meridian arc formula with the WGS84
  constants; its value at 0 is below its value at 90; and these values are within half a
  metre of 110574 and of 111694 metres per degree.
\<close>

theorem wgs_scale_meridian_arc:
  "wgs_scale lat =
     6378137 * (1 - 0.0818191908426\<^sup>2)
       / (1 - 0.0818191908426\<^sup>2 * (sin (lat * pi / 180))\<^sup>2) powr 1.5 * (pi / 180)
   \<and> wgs_scale 0 < wgs_scale 90
   \<and> \<bar>wgs_scale 0 - 110574\<bar> < 1 / 2
   \<and> \<bar>wgs_scale 90 - 111694\<bar> < 1 / 2"
proof -
  have "wgs_scale 0 < wgs_scale 90" by (rule wgs_scale_strict_mono) simp_all
  moreover have "\<bar>wgs_scale 0 - 110574\<bar> < 1 / 2" using wgs_scale_0_bounds by simp
  moreover have "\<bar>wgs_scale 90 - 111694\<bar> < 1 / 2" using wgs_scale_90_bounds by simp
  ultimately show ?thesis using wgs_scale_closed[of lat] by blast
qed

text \<open>The theorem at declination 12.\<close>

theorem wgs_scale_meridian_arc_witness:
  "wgs_scale 12 =
     6378137 * (1 - 0.0818191908426\<^sup>2)
       / (1 - 0.0818191908426\<^sup>2 * (sin (12 * pi / 180))\<^sup>2) powr 1.5 * (pi / 180)
   \<and> wgs_scale 0 < wgs_scale 90"
  using wgs_scale_meridian_arc[where lat = 12] by simp

text \<open>
  Claim C7 as stated fails in binary64: the latitudes 0 and \<open>1 / 2 ^ 20\<close> are both numbers of
  binary64 in [0, 90], the first below the second, and the scale computed for them is the
  same, so the computed function is not strictly increasing. There the base of the power
  rounds to 1.
\<close>

theorem wgs_scale64_not_strict_counterexample:
  "(0::real) \<le> 0 \<and> (0::real) < 1 / 2 ^ 20 \<and> (1::real) / 2 ^ 20 \<le> 90
   \<and> fl 0 = 0 \<and> fl (1 / 2 ^ 20) = 1 / 2 ^ 20
   \<and> wgs_scale64 0 = wgs_scale64 (1 / 2 ^ 20)
   \<and> \<not> wgs_scale64 0 < wgs_scale64 (1 / 2 ^ 20)"
  using fl_zero fl_pow2_exact wgs_scale64_flat by simp



text \<open>
  Claim C9: the square of the eccentricity is below 1, the base of the power is at
  least \<open>1 - e\<^sup>2\<close>, hence positive, for every latitude, so the power is positive, the
  division is by a positive number, and the scale is positive.
\<close>

theorem wgs_scale_total_positive:
  "(0::real) < 1 - 0.0818191908426\<^sup>2
   \<and> 1 - 0.0818191908426\<^sup>2 \<le> wgs_base 0.0818191908426 lat
   \<and> 0 < wgs_base 0.0818191908426 lat powr 1.5
   \<and> wgs_scale lat
       = 6378137 * (1 - 0.0818191908426\<^sup>2) / wgs_base 0.0818191908426 lat powr 1.5 * (pi / 180)
   \<and> 0 < wgs_scale lat"
proof -
  have "0 < wgs_base 0.0818191908426 lat powr 1.5"
    using wgs_base_pos[of lat] by simp
  then show ?thesis
    using ecc_sq_less_one wgs_base_lower[of lat] wgs_scale_base[of lat] wgs_scale_pos[of lat]
    by blast
qed

text \<open>
  The theorem at the declination of document 11.
\<close>

theorem wgs_scale_total_positive_witness:
  "0 < wgs_scale (- 39.548) \<and> 0 < wgs_base 0.0818191908426 (- 39.548) powr 1.5"
  using wgs_scale_total_positive[where lat = "- 39.548"] by simp

text \<open>
  Claim C10: \<open>wgs_scale\<close> is even, and the cone searches centred at declinations
  \<open>d\<close> and \<open>- d\<close> pass the same maximal distance in metres to the store for the
  same radius in degrees.
\<close>

theorem wgs_scale_even_radius:
  "wgs_scale (- lat) = wgs_scale lat
   \<and> cone_search ra' d radius c f
       = find_nearSphere c \<lparr>geometry = Point (ra' - 180, d), maxDistance = radius * wgs_scale d\<rparr>
   \<and> cone_search ra' (- d) radius c f
       = find_nearSphere c \<lparr>geometry = Point (ra' - 180, - d), maxDistance = radius * wgs_scale d\<rparr>
   \<and> cone_search_advanced dw ra' d radius q c f df
       = aggregate_geoNear dw \<lparr>near = Point (ra' - 180, d), spherical = True,
           maxDistance_opt = Some (radius * wgs_scale d), query = q, distanceField = df\<rparr>
   \<and> cone_search_advanced dw ra' (- d) radius q c f df
       = aggregate_geoNear dw \<lparr>near = Point (ra' - 180, - d), spherical = True,
           maxDistance_opt = Some (radius * wgs_scale d), query = q, distanceField = df\<rparr>"
  by (simp add: cone_search_def cone_search_advanced_def lon_lat_def wgs_scale_even)

text \<open>
  The theorem at declinations 12 and -12.
\<close>

theorem wgs_scale_even_radius_witness:
  "wgs_scale (- 12) = wgs_scale 12
   \<and> cone_search 220 (- 12) 10 polar_dwarfs ''coords.loc''
       = find_nearSphere polar_dwarfs
           \<lparr>geometry = Point (40, - 12), maxDistance = 10 * wgs_scale 12\<rparr>"
  using wgs_scale_even_radius[where lat = 12 and ra' = 220 and d = 12 and radius = 10
      and c = polar_dwarfs and f = "''coords.loc''"]
  by simp

end
